theory Spec2Isabelle
  imports Main "HOL-Library.Word"
begin

section \<open>Python strings\<close>

text \<open>
  A Python \<open>str\<close> is modelled as a list of code points below 256 (the type \<open>char\<close>),
  and the character predicates of Python are given on that range.
  \<open>str.isdigit\<close> holds for \<open>0\<close>..\<open>9\<close> and for the superscript digits U+00B2, U+00B3
  and U+00B9; \<open>str.isspace\<close> holds for U+0009..U+000D, U+001C..U+0020, U+0085 and
  U+00A0; \<open>str.lower\<close> maps \<open>A\<close>..\<open>Z\<close> and U+00C0..U+00DE (without U+00D7) 32 places up.
\<close>

definition isdigit :: "char \<Rightarrow> bool" where
  "isdigit c = (let n = (of_char c :: nat) in
     (48 \<le> n \<and> n \<le> 57) \<or> n = 178 \<or> n = 179 \<or> n = 185)"

definition isspace :: "char \<Rightarrow> bool" where
  "isspace c = (let n = (of_char c :: nat) in
     (9 \<le> n \<and> n \<le> 13) \<or> (28 \<le> n \<and> n \<le> 32) \<or> n = 133 \<or> n = 160)"

definition lower_char :: "char \<Rightarrow> char" where
  "lower_char c = (let n = (of_char c :: nat) in
     if (65 \<le> n \<and> n \<le> 90) \<or> (192 \<le> n \<and> n \<le> 222 \<and> n \<noteq> 215)
     then char_of (n + 32) else c)"

definition lower :: "string \<Rightarrow> string" where
  "lower s = map lower_char s"

text \<open>\<open>s.lstrip(cs)\<close>, \<open>s.rstrip(cs)\<close> and \<open>s.strip()\<close>, the set of characters as a predicate.\<close>

definition lstrip :: "(char \<Rightarrow> bool) \<Rightarrow> string \<Rightarrow> string" where
  "lstrip p s = dropWhile p s"

definition rstrip :: "(char \<Rightarrow> bool) \<Rightarrow> string \<Rightarrow> string" where
  "rstrip p s = rev (dropWhile p (rev s))"

definition strip :: "string \<Rightarrow> string" where
  "strip s = rstrip isspace (lstrip isspace s)"

definition startswith :: "string \<Rightarrow> string \<Rightarrow> bool" where
  "startswith s p = (take (length p) s = p)"

definition endswith :: "string \<Rightarrow> string \<Rightarrow> bool" where
  "endswith s p = (length p \<le> length s \<and> drop (length s - length p) s = p)"

section \<open>Phone numbers\<close>

text \<open>
  \<^verbatim>\<open>
  def normalize_phone(raw: str) -> str:
      s = (str(raw) or "").strip()
      s = "".join(ch for ch in s if ch.isdigit())
      s = s.lstrip("0")
      if len(s) >= 10 and not s.startswith("55"):
          s = "55" + s
      return s
  \<close>
  No statement of the body can raise on a string, so the model returns a plain string.
\<close>

definition normalize_phone :: "string \<Rightarrow> string" where
  "normalize_phone raw =
     (let s = strip (if raw = [] then [] else raw);
          s = filter isdigit s;
          s = lstrip (\<lambda>c. c = CHR ''0'') s
      in if length s \<ge> 10 \<and> \<not> startswith s ''55'' then ''55'' @ s else s)"



section \<open>Text of numbers\<close>

text \<open>\<open>str(n)\<close> for an integer: its decimal digits, with a minus sign when negative.\<close>

definition digit_char :: "nat \<Rightarrow> char" where
  "digit_char d = ''0123456789abcdef'' ! d"

fun str_nat :: "nat \<Rightarrow> string" where
  "str_nat n =
     (if n < 10 then [digit_char n]
      else str_nat (n div 10) @ [digit_char (n mod 10)])"

declare str_nat.simps [simp del]

definition str_int :: "int \<Rightarrow> string" where
  "str_int i = (if i < 0 then CHR ''-'' # str_nat (nat (- i)) else str_nat (nat i))"

section \<open>JSON values and \<open>json.dumps\<close>\<close>

text \<open>
  What \<open>r.json()\<close> returns and what \<open>json.dumps\<close> takes. A dict keeps its keys in
  insertion order, so an object is an association list. A float is carried as the text
  that \<open>repr\<close> gives for it.
\<close>

datatype json =
    JNull
  | JBool bool
  | JInt int
  | JFloat string
  | JStr string
  | JArr "json list"
  | JObj "(string \<times> json) list"

text \<open>
  The escapes of \<open>json.encoder\<close> under \<open>ensure_ascii=False\<close>: backslash, double quote
  and the control characters below U+0020; every other character stands for itself.
\<close>

definition json_escape_char :: "char \<Rightarrow> string" where
  "json_escape_char c = (let n = (of_char c :: nat) in
     if n = 92 then [CHR 0x5C, CHR 0x5C]
     else if n = 34 then [CHR 0x5C, CHR 0x22]
     else if n = 8 then [CHR 0x5C, CHR ''b'']
     else if n = 12 then [CHR 0x5C, CHR ''f'']
     else if n = 10 then [CHR 0x5C, CHR ''n'']
     else if n = 13 then [CHR 0x5C, CHR ''r'']
     else if n = 9 then [CHR 0x5C, CHR ''t'']
     else if n < 32 then [CHR 0x5C, CHR ''u'', CHR ''0'', CHR ''0'', digit_char (n div 16), digit_char (n mod 16)]
     else [c])"

definition json_quote :: "string \<Rightarrow> string" where
  "json_quote s = [CHR 0x22] @ concat (map json_escape_char s) @ [CHR 0x22]"

fun join :: "string \<Rightarrow> string list \<Rightarrow> string" where
  "join sep [] = []"
| "join sep [x] = x"
| "join sep (x # y # ys) = x @ sep @ join sep (y # ys)"

text \<open>\<open>json.dumps(v, ensure_ascii=False, separators=(",", ":"))\<close>.\<close>

fun json_dumps :: "json \<Rightarrow> string" where
  "json_dumps JNull = ''null''"
| "json_dumps (JBool b) = (if b then ''true'' else ''false'')"
| "json_dumps (JInt i) = str_int i"
| "json_dumps (JFloat r) = r"
| "json_dumps (JStr s) = json_quote s"
| "json_dumps (JArr vs) = ''['' @ join '','' (map json_dumps vs) @ '']''"
| "json_dumps (JObj kvs) =
     ''{'' @ join '','' (map (\<lambda>kv. json_quote (fst kv) @ '':'' @ json_dumps (snd kv)) kvs) @ ''}''"

section \<open>The outside world\<close>

text \<open>
  A \<open>requests.Response\<close>: the fields the program reads. \<open>json_result\<close> is what
  \<open>r.json()\<close> does: \<open>Inl msg\<close> when the body is not JSON and the call raises.
\<close>

type_synonym bytes = "8 word list"

record response =
  status_code :: int
  reason :: string
  resp_url :: string
  resp_text :: string
  content :: bytes
  json_result :: "string + json"

text \<open>
  A Python exception: its class, \<open>str(e)\<close>, and its \<open>response\<close> attribute.
  \<open>requests.RequestException.__init__\<close> sets \<open>self.response\<close> to the keyword argument
  \<open>response\<close>, or to \<open>None\<close> when the caller gives none; the other classes have no
  such attribute, which \<open>getattr(e, "response", None)\<close> reads as \<open>None\<close> too.
\<close>

datatype exn_class =
  FileNotFoundError | OSError | ValueError | HTTPError | RequestException | JSONDecodeError | SystemExit

datatype py_exn = Exn (exn_class: exn_class) (exn_str: string) (exn_response: "response option")

text \<open>What PIL does with the bytes inside \<open>ensure_jpeg_bytes\<close>.\<close>

datatype pil_outcome =
    PilRaises   \<comment> \<open>the import or \<open>Image.open\<close> raises\<close>
  | PilJpeg   \<comment> \<open>the image opens and its format, upper-cased, is \<open>JPEG\<close>\<close>
  | PilOther "bytes option"
      \<comment> \<open>another format; the bytes \<open>convert("RGB").save(...)\<close> writes, \<open>None\<close> when it raises\<close>

record file_part =
  f_base64 :: string
  f_mimetype :: string
  f_name :: string

record payload =
  p_text :: string
  p_number :: string
  p_serviceId :: string
  p_file :: file_part

record request =
  req_url :: string
  req_authorization :: string
  req_content_type :: string
  req_json :: payload

text \<open>
  The collaborators of the program, as parameters: HTTP, the file system for the image,
  PIL, \<open>base64.b64encode\<close>, the rows \<open>csv.reader\<close> yields for the contact file, and
  \<open>repr\<close> of a list of strings.
\<close>

record env =
  requests_get :: "string \<Rightarrow> py_exn + response"
  requests_post :: "request \<Rightarrow> py_exn + response"
  path_exists :: "string \<Rightarrow> bool"
  read_bytes :: "string \<Rightarrow> py_exn + bytes"
  pil :: "bytes \<Rightarrow> pil_outcome"
  b64encode :: "bytes \<Rightarrow> string"
  csv_reader :: "string \<Rightarrow> py_exn + string list list"
  repr_list :: "string list \<Rightarrow> string"

text \<open>
  \<open>Response.raise_for_status\<close> of the requests library: \<open>HTTPError\<close>, carrying
  the response, for a status from 400 to 599, and nothing otherwise.
\<close>

definition raise_for_status :: "response \<Rightarrow> py_exn option" where
  "raise_for_status r =
     (let c = status_code r in
      if 400 \<le> c \<and> c < 500 then
        Some (Exn HTTPError (str_int c @ '' Client Error: '' @ reason r @ '' for url: '' @ resp_url r) (Some r))
      else if 500 \<le> c \<and> c < 600 then
        Some (Exn HTTPError (str_int c @ '' Server Error: '' @ reason r @ '' for url: '' @ resp_url r) (Some r))
      else None)"

section \<open>The image\<close>

text \<open>
  \<^verbatim>\<open>
  def read_image_bytes(src: str) -> bytes:
      if src.startswith(("http://", "https://")):
          r = requests.get(src, timeout=20)
          r.raise_for_status()
          return r.content
      p = Path(src)
      if not p.exists():
          raise FileNotFoundError(f"Imagem n<U+00E3>o encontrada: {src}")
      return p.read_bytes()
  \<close>
\<close>

definition read_image_bytes :: "env \<Rightarrow> string \<Rightarrow> py_exn + bytes" where
  "read_image_bytes e src =
     (if startswith src ''http://'' \<or> startswith src ''https://'' then
        (case requests_get e src of
           Inl ex \<Rightarrow> Inl ex
         | Inr r \<Rightarrow> (case raise_for_status r of Some ex \<Rightarrow> Inl ex | None \<Rightarrow> Inr (content r)))
      else if \<not> path_exists e src then
        Inl (Exn FileNotFoundError (''Imagem n'' @ [CHR 0xE3] @ ''o encontrada: '' @ src) None)
      else read_bytes e src)"

text \<open>
  \<open>ensure_jpeg_bytes\<close>: the original bytes when PIL cannot open them or when they are
  JPEG already, the re-encoded bytes otherwise; \<open>except Exception\<close> returns the original.
\<close>

definition ensure_jpeg_bytes :: "env \<Rightarrow> bytes \<Rightarrow> bytes" where
  "ensure_jpeg_bytes e img_bytes =
     (case pil e img_bytes of
        PilRaises \<Rightarrow> img_bytes
      | PilJpeg \<Rightarrow> img_bytes
      | PilOther None \<Rightarrow> img_bytes
      | PilOther (Some out) \<Rightarrow> out)"

definition to_base64 :: "env \<Rightarrow> bytes \<Rightarrow> string" where
  "to_base64 e b = b64encode e b"

section \<open>Paths\<close>

text \<open>
  \<open>Path(s).name\<close> and \<open>Path(s).stem\<close> of pathlib for POSIX paths (components
  separated by \<open>/\<close>), as up to Python 3.13: the name is the last component that is
  neither empty nor \<open>.\<close>; the stem cuts the name at its last dot, unless that dot is
  the first or the last character.
\<close>

fun split_on :: "char \<Rightarrow> string \<Rightarrow> string list" where
  "split_on d [] = [[]]"
| "split_on d (c # cs) =
     (if c = d then [] # split_on d cs
      else (case split_on d cs of [] \<Rightarrow> [[c]] | w # ws \<Rightarrow> (c # w) # ws))"

definition path_name :: "string \<Rightarrow> string" where
  "path_name s =
     (let parts = filter (\<lambda>p. p \<noteq> [] \<and> p \<noteq> ''.'') (split_on CHR ''/'' s)
      in if parts = [] then [] else last parts)"

definition name_stem :: "string \<Rightarrow> string" where
  "name_stem n =
     (if CHR ''.'' \<notin> set n then n
      else let i = length n - length (takeWhile (\<lambda>c. c \<noteq> CHR ''.'') (rev n)) - 1
           in if 0 < i \<and> i < length n - 1 then take i n else n)"

definition path_stem :: "string \<Rightarrow> string" where
  "path_stem s = name_stem (path_name s)"

section \<open>Contacts\<close>

record contact =
  nome :: string
  telefone :: string

text \<open>
  \<open>load_contacts_csv\<close>, from the rows \<open>csv.reader\<close> yields (the header row first).
  \<open>header_cell\<close> is \<open>(h or "").strip().lower().replace(<U+FEFF>, "")\<close>: no code point
  below 256 is U+FEFF, so the replacement changes nothing here.
\<close>

definition header_cell :: "string \<Rightarrow> string" where
  "header_cell h = lower (strip h)"

definition tel_aliases :: "string list" where
  "tel_aliases = [''telefone'', ''celular'', ''celular.1'', ''fone'', ''phone'', ''number'']"

definition nome_aliases :: "string list" where
  "nome_aliases = [''nome'', ''name'']"

text \<open>The first index whose element satisfies \<open>p\<close>: \<open>next(i for i, h in enumerate(xs) if p(h))\<close>.\<close>

fun first_index :: "('a \<Rightarrow> bool) \<Rightarrow> 'a list \<Rightarrow> nat option" where
  "first_index p [] = None"
| "first_index p (x # xs) =
     (if p x then Some 0 else map_option Suc (first_index p xs))"

text \<open>\<open>any(line)\<close>: some cell is a non-empty string.\<close>

definition any_cell :: "string list \<Rightarrow> bool" where
  "any_cell line = list_ex (\<lambda>cell. cell \<noteq> []) line"

text \<open>One row of the loop \<open>for line in reader\<close>: the contact it appends, if any.\<close>

definition contact_of_line :: "nat \<Rightarrow> nat option \<Rightarrow> string list \<Rightarrow> contact option" where
  "contact_of_line idx_tel idx_nome line =
     (if \<not> any_cell line then None
      else
        let tel = normalize_phone (if idx_tel < length line then line ! idx_tel else []);
            nm = (case idx_nome of
                    None \<Rightarrow> []
                  | Some j \<Rightarrow> if j < length line then strip (line ! j) else [])
        in if tel \<noteq> [] then Some \<lparr>nome = nm, telefone = tel\<rparr> else None)"

text \<open>The loop itself, \<open>rows\<close> being the list it appends to.\<close>

fun load_lines :: "nat \<Rightarrow> nat option \<Rightarrow> string list list \<Rightarrow> contact list \<Rightarrow> contact list" where
  "load_lines idx_tel idx_nome [] rows = rows"
| "load_lines idx_tel idx_nome (line # rest) rows =
     (case contact_of_line idx_tel idx_nome line of
        None \<Rightarrow> load_lines idx_tel idx_nome rest rows
      | Some c \<Rightarrow> load_lines idx_tel idx_nome rest (rows @ [c]))"

definition load_contacts_rows :: "env \<Rightarrow> string list list \<Rightarrow> py_exn + contact list" where
  "load_contacts_rows e table =
     (let header = map header_cell (case table of [] \<Rightarrow> [] | h # _ \<Rightarrow> h);
          body = (case table of [] \<Rightarrow> [] | _ # ls \<Rightarrow> ls)
      in case first_index (\<lambda>h. h \<in> set tel_aliases) header of
           None \<Rightarrow>
             Inl (Exn ValueError
                   (''Header n'' @ [CHR 0xE3] @ ''o tem coluna de telefone: '' @ repr_list e header) None)
         | Some idx_tel \<Rightarrow>
             Inr (load_lines idx_tel (first_index (\<lambda>h. h \<in> set nome_aliases) header) body []))"

definition load_contacts_csv :: "env \<Rightarrow> string \<Rightarrow> py_exn + contact list" where
  "load_contacts_csv e path =
     (case csv_reader e path of
        Inl ex \<Rightarrow> Inl ex
      | Inr table \<Rightarrow> load_contacts_rows e table)"

section \<open>The result file\<close>

text \<open>
  The files the program writes: a path is absent or holds the rows written to it, a row
  being the list of its fields. A file has size zero exactly when it holds no row.
  \<^verbatim>\<open>
  def append_row(csv_path, linha, telefone, status, http, detalhe_dict):
      file_exists = os.path.exists(csv_path)
      with open(csv_path, "a", newline="", encoding="utf-8") as f:
          w = csv.DictWriter(f, fieldnames=FIELDNAMES)
          if not file_exists or os.path.getsize(csv_path) == 0:
              w.writeheader()
          w.writerow({...})
  \<close>
\<close>

type_synonym files = "string \<rightharpoonup> string list list"

definition FIELDNAMES :: "string list" where
  "FIELDNAMES = [''linha'', ''telefone'', ''status'', ''http'', ''detalhe'']"

definition record_row :: "int \<Rightarrow> string \<Rightarrow> string \<Rightarrow> int \<Rightarrow> json \<Rightarrow> string list" where
  "record_row linha tel status http detalhe_dict =
     [str_int linha, tel, status, str_int http, json_dumps detalhe_dict]"

definition append_row ::
  "string \<Rightarrow> int \<Rightarrow> string \<Rightarrow> string \<Rightarrow> int \<Rightarrow> json \<Rightarrow> files \<Rightarrow> files" where
  "append_row csv_path linha tel status http detalhe_dict fs =
     (let file_exists = (fs csv_path \<noteq> None);
          old = (case fs csv_path of None \<Rightarrow> [] | Some rows \<Rightarrow> rows);
          header = (if \<not> file_exists \<or> old = [] then [FIELDNAMES] else [])
      in fs(csv_path \<mapsto> old @ header @ [record_row linha tel status http detalhe_dict]))"

section \<open>Sending\<close>

text \<open>What a call does to the outside, in order.\<close>

datatype event =
    ReadImage string   \<comment> \<open>\<open>read_image_bytes(src)\<close> was called\<close>
  | Normalize   \<comment> \<open>\<open>ensure_jpeg_bytes\<close> was called\<close>
  | Encode   \<comment> \<open>\<open>to_base64\<close> was called\<close>
  | Post request   \<comment> \<open>\<open>requests.post\<close> was called\<close>

text \<open>
  The name of the attachment, as \<open>send_image_with_caption_base64\<close> computes it:
  \<^verbatim>\<open>
  name = filename or (Path(img_src).name if not img_src.startswith("http") else "image.jpg")
  ... name if name.lower().endswith(".jpg") or name.lower().endswith(".jpeg")
      else f"{Path(name).stem}.jpg"
  \<close>
\<close>

definition chosen_name :: "string option \<Rightarrow> string \<Rightarrow> string" where
  "chosen_name filename img_src =
     (case filename of
        Some f \<Rightarrow> if f \<noteq> [] then f
                  else if \<not> startswith img_src ''http'' then path_name img_src else ''image.jpg''
      | None \<Rightarrow> if \<not> startswith img_src ''http'' then path_name img_src else ''image.jpg'')"

definition forced_jpg :: "string \<Rightarrow> string" where
  "forced_jpg name =
     (if endswith (lower name) ''.jpg'' \<or> endswith (lower name) ''.jpeg'' then name
      else path_stem name @ ''.jpg'')"

definition file_name :: "string option \<Rightarrow> string \<Rightarrow> string" where
  "file_name filename img_src = forced_jpg (chosen_name filename img_src)"

definition size_limit :: nat where
  "size_limit = 63 * 1024 * 1024"

text \<open>
  \<open>send_image_with_caption_base64\<close>: the events of the call and what it returns or
  raises. \<open>text\<close> may be \<open>None\<close> (\<open>text or ""\<close>).
\<close>

definition send_image_with_caption_base64 ::
  "env \<Rightarrow> string \<Rightarrow> string \<Rightarrow> string \<Rightarrow> string \<Rightarrow> string option \<Rightarrow> string \<Rightarrow> string option
     \<Rightarrow> event list \<times> (py_exn + json)" where
  "send_image_with_caption_base64 e api_base_v1 token number service_id txt img_src filename =
     (case read_image_bytes e img_src of
        Inl ex \<Rightarrow> ([ReadImage img_src], Inl ex)
      | Inr raw \<Rightarrow>
          let jpg = ensure_jpeg_bytes e raw in
          if length jpg > size_limit then
            ([ReadImage img_src, Normalize],
             Inl (Exn ValueError (''Arquivo > 63MB ('' @ str_nat (length jpg) @ '' bytes)'') None))
          else
            let b64 = to_base64 e jpg;
                rq = \<lparr>req_url = rstrip (\<lambda>c. c = CHR ''/'') api_base_v1 @ ''/messages'',
                      req_authorization = ''Bearer '' @ token,
                      req_content_type = ''application/json'',
                      req_json = \<lparr>p_text = strip (case txt of None \<Rightarrow> [] | Some t \<Rightarrow> t),
                                  p_number = number,
                                  p_serviceId = service_id,
                                  p_file = \<lparr>f_base64 = b64,
                                            f_mimetype = ''image/jpeg'',
                                            f_name = file_name filename img_src\<rparr>\<rparr>\<rparr>;
                evs = [ReadImage img_src, Normalize, Encode, Post rq]
            in case requests_post e rq of
                 Inl ex \<Rightarrow> (evs, Inl ex)
               | Inr r \<Rightarrow>
                   (case raise_for_status r of
                      Some ex \<Rightarrow>
                        (evs, Inl (Exn HTTPError (exn_str ex @ '' | body='' @ take 800 (resp_text r)) None))
                    | None \<Rightarrow>
                        (case json_result r of
                           Inl msg \<Rightarrow> (evs, Inl (Exn JSONDecodeError msg None))
                         | Inr j \<Rightarrow> (evs, Inr j))))"

section \<open>The batch\<close>

record world =
  files :: files
  events :: "event list"

record settings =
  API_V1 :: string
  TOKEN :: string
  SRVID :: string
  IMAGE :: string
  TEXT :: string

text \<open>
  \<open>getattr(getattr(e, "response", None), "status_code", 0) or 0\<close>.
\<close>

definition http_code_of :: "py_exn \<Rightarrow> int" where
  "http_code_of ex = (case exn_response ex of None \<Rightarrow> 0 | Some r \<Rightarrow> status_code r)"

text \<open>
  One pass of the loop \<open>for i, c in enumerate(contacts, start=1)\<close>: the send, then the
  row of the result file. The pause between two sends changes nothing of the world
  modelled here.
\<close>

definition dispatch_one :: "env \<Rightarrow> settings \<Rightarrow> int \<Rightarrow> contact \<Rightarrow> world \<Rightarrow> world" where
  "dispatch_one e st i c w =
     (let tel = telefone c;
          (evs, res) = send_image_with_caption_base64 e (API_V1 st) (TOKEN st) tel (SRVID st)
                         (Some (TEXT st)) (IMAGE st) None;
          w1 = w\<lparr>events := events w @ evs\<rparr>
      in case res of
           Inr resp \<Rightarrow>
             w1\<lparr>files := append_row ''resultado_envio.csv'' i tel ''ENVIADO'' 200
                             (JObj [(''resp'', resp)]) (files w1)\<rparr>
         | Inl ex \<Rightarrow>
             w1\<lparr>files := append_row ''resultado_envio.csv'' i tel ''FALHA'' (http_code_of ex)
                             (JObj [(''erro'', JStr (exn_str ex))]) (files w1)\<rparr>)"

fun main_loop :: "env \<Rightarrow> settings \<Rightarrow> int \<Rightarrow> contact list \<Rightarrow> world \<Rightarrow> world" where
  "main_loop e st i [] w = w"
| "main_loop e st i (c # cs) w = main_loop e st (i + 1) cs (dispatch_one e st i c w)"

text \<open>
  The program: the environment variables (\<open>None\<close> when unset), the arguments
  \<open>--file\<close> and \<open>--limit\<close>. \<open>DELAY_SECONDS\<close> is taken to be unset or a number.
\<close>

record environ =
  DIGISAC_API_URL :: "string option"
  DIGISAC_TOKEN :: "string option"
  DIGISAC_SERVICE :: "string option"
  IMAGE_SRC :: "string option"
  MESSAGE_TEMPLATE :: "string option"
  MESSAGE_TEXT :: "string option"

text \<open>\<open>a or b\<close> for an optional string \<open>a\<close>: \<open>None\<close> and the empty string are false.\<close>

definition or_else :: "string option \<Rightarrow> string \<Rightarrow> string" where
  "or_else a b = (case a of None \<Rightarrow> b | Some s \<Rightarrow> if s = [] then b else s)"

definition settings_of :: "environ \<Rightarrow> settings" where
  "settings_of ev =
     \<lparr>API_V1 = rstrip (\<lambda>c. c = CHR ''/'') (or_else (DIGISAC_API_URL ev) []),
      TOKEN = or_else (DIGISAC_TOKEN ev) [],
      SRVID = or_else (DIGISAC_SERVICE ev) [],
      IMAGE = or_else (IMAGE_SRC ev) ''banner.jpg'',
      TEXT = strip (or_else (MESSAGE_TEMPLATE ev) (or_else (MESSAGE_TEXT ev) []))\<rparr>"

definition main :: "env \<Rightarrow> environ \<Rightarrow> string \<Rightarrow> int \<Rightarrow> world \<Rightarrow> py_exn + world" where
  "main e ev file limit w =
     (let st = settings_of ev in
      if API_V1 st = [] \<or> TOKEN st = [] \<or> SRVID st = [] then
        Inl (Exn SystemExit ''Defina DIGISAC_API_URL, DIGISAC_TOKEN e DIGISAC_SERVICE no .env'' None)
      else if \<not> (startswith (IMAGE st) ''http://'' \<or> startswith (IMAGE st) ''https://'')
              \<and> \<not> path_exists e (IMAGE st) then
        Inl (Exn SystemExit (''Imagem n'' @ [CHR 0xE3] @ ''o encontrada: '' @ IMAGE st) None)
      else
        case load_contacts_csv e file of
          Inl ex \<Rightarrow> Inl ex
        | Inr contacts \<Rightarrow>
            Inr (main_loop e st 1
                   (if limit > 0 then take (nat limit) contacts else contacts) w))"

section \<open>Notions for the statements\<close>

text \<open>The rows of \<open>resultado_envio.csv\<close>, none when the file is absent.\<close>

definition ledger :: "world \<Rightarrow> string list list" where
  "ledger w = (case files w ''resultado_envio.csv'' of None \<Rightarrow> [] | Some rows \<Rightarrow> rows)"

text \<open>The call the loop makes for a contact, and the row the loop writes after it.\<close>

definition send_to :: "env \<Rightarrow> settings \<Rightarrow> contact \<Rightarrow> event list \<times> (py_exn + json)" where
  "send_to e st c =
     send_image_with_caption_base64 e (API_V1 st) (TOKEN st) (telefone c) (SRVID st)
       (Some (TEXT st)) (IMAGE st) None"

definition outcome_row :: "env \<Rightarrow> settings \<Rightarrow> int \<Rightarrow> contact \<Rightarrow> string list" where
  "outcome_row e st i c =
     (case snd (send_to e st c) of
        Inr resp \<Rightarrow> record_row i (telefone c) ''ENVIADO'' 200 (JObj [(''resp'', resp)])
      | Inl ex \<Rightarrow>
          record_row i (telefone c) ''FALHA'' (http_code_of ex) (JObj [(''erro'', JStr (exn_str ex))]))"

text \<open>The rows a run writes for the contacts \<open>cs\<close>, the first of them numbered \<open>i\<close>.\<close>

fun outcome_rows :: "env \<Rightarrow> settings \<Rightarrow> int \<Rightarrow> contact list \<Rightarrow> string list list" where
  "outcome_rows e st i [] = []"
| "outcome_rows e st i (c # cs) = outcome_row e st i c # outcome_rows e st (i + 1) cs"

text \<open>A sequence of calls of \<open>append_row\<close> on one path, each with its arguments.\<close>

type_synonym outcome = "int \<times> string \<times> string \<times> int \<times> json"

definition row_of :: "outcome \<Rightarrow> string list" where
  "row_of oc = (case oc of (linha, tel, status, http, d) \<Rightarrow> record_row linha tel status http d)"

fun append_all :: "string \<Rightarrow> outcome list \<Rightarrow> files \<Rightarrow> files" where
  "append_all p [] fs = fs"
| "append_all p (oc # ocs) fs =
     append_all p ocs
       (case oc of (linha, tel, status, http, d) \<Rightarrow> append_row p linha tel status http d fs)"

definition rows_at :: "files \<Rightarrow> string \<Rightarrow> string list list" where
  "rows_at fs p = (case fs p of None \<Rightarrow> [] | Some rows \<Rightarrow> rows)"

section \<open>A small world to run the program in\<close>

text \<open>
  A gateway that accepts every message, one that answers 422 to every message, and a
  machine with one local image \<open>banner.jpg\<close> and no network for images. The three
  bytes \<open>FF D8 FF\<close> encode to \<open>/9j/\<close> in base64.
\<close>

definition gateway_ok :: "request \<Rightarrow> py_exn + response" where
  "gateway_ok rq =
     Inr \<lparr>status_code = 200, reason = ''OK'', resp_url = req_url rq,
          resp_text = ''{\"id\":\"m1\"}'', content = [],
          json_result = Inr (JObj [(''id'', JStr ''m1'')])\<rparr>"

definition gateway_422 :: "request \<Rightarrow> py_exn + response" where
  "gateway_422 rq =
     Inr \<lparr>status_code = 422, reason = ''Unprocessable Entity'', resp_url = req_url rq,
          resp_text = ''{\"error\":\"invalid number\"}'', content = [],
          json_result = Inr (JObj [(''error'', JStr ''invalid number'')])\<rparr>"

definition demo_env :: "(request \<Rightarrow> py_exn + response) \<Rightarrow> bytes \<Rightarrow> env" where
  "demo_env gateway img =
     \<lparr>requests_get = (\<lambda>u. Inl (Exn RequestException ''no network'' None)),
      requests_post = gateway,
      path_exists = (\<lambda>p. p = ''banner.jpg''),
      read_bytes = (\<lambda>p. if p = ''banner.jpg'' then Inr img
                         else Inl (Exn OSError ''[Errno 2] No such file or directory'' None)),
      pil = (\<lambda>b. PilJpeg),
      b64encode = (\<lambda>b. if b = [0xFF, 0xD8, 0xFF] then ''/9j/'' else []),
      csv_reader = (\<lambda>p. if p = ''teste.csv''
                         then Inr [[''nome'', ''telefone''], [''Ana'', ''11999990000''],
                                   ['''', ''zz''], [''Bea'', ''5511888880000'']]
                         else Inl (Exn FileNotFoundError ''[Errno 2] No such file or directory'' None)),
      repr_list = (\<lambda>xs. ''[...]'')\<rparr>"

definition demo_environ :: environ where
  "demo_environ =
     \<lparr>DIGISAC_API_URL = Some ''https://demo.digisac.chat/api/v1/'',
      DIGISAC_TOKEN = Some ''token-1234'',
      DIGISAC_SERVICE = Some ''svc-1'',
      IMAGE_SRC = None,
      MESSAGE_TEMPLATE = Some '' Oi! '',
      MESSAGE_TEXT = None\<rparr>"

definition demo_settings :: settings where
  "demo_settings =
     \<lparr>API_V1 = ''https://demo.digisac.chat/api/v1'', TOKEN = ''token-1234'', SRVID = ''svc-1'',
      IMAGE = ''banner.jpg'', TEXT = ''Oi!''\<rparr>"

definition jpeg3 :: bytes where
  "jpeg3 = [0xFF, 0xD8, 0xFF]"

definition huge :: bytes where
  "huge = replicate 66060289 0"

definition world0 :: world where
  "world0 = \<lparr>files = Map.empty, events = []\<rparr>"

definition ana :: contact where
  "ana = \<lparr>nome = ''Ana'', telefone = ''5511999990000''\<rparr>"

definition bea :: contact where
  "bea = \<lparr>nome = ''Bea'', telefone = ''5511888880000''\<rparr>"

section \<open>Evaluating on concrete inputs\<close>

lemma str_nat_numeral:
  "str_nat (numeral k) =
     (if (numeral k :: nat) < 10 then [digit_char (numeral k)]
      else str_nat (numeral k div 10) @ [digit_char (numeral k mod 10)])"
  by (rule str_nat.simps)

lemma str_nat_0: "str_nat 0 = ''0''"
  by (simp add: str_nat.simps [of 0] digit_char_def)

lemma str_nat_1: "str_nat (Suc 0) = ''1''"
  by (simp add: str_nat.simps [of "Suc 0"] digit_char_def)

lemmas str_eval = str_nat_numeral str_nat_0 str_nat_1 digit_char_def str_int_def

lemmas string_eval =
  strip_def lstrip_def rstrip_def isspace_def isdigit_def startswith_def endswith_def
  lower_def lower_char_def char_of_eq_iff

section \<open>Phone numbers: the properties\<close>

lemma isdigit_not_isspace: "isdigit c \<Longrightarrow> \<not> isspace c"
  by (auto simp: isdigit_def isspace_def Let_def)

lemma filter_dropWhile_disjoint:
  "(\<And>x. p x \<Longrightarrow> \<not> q x) \<Longrightarrow> filter q (dropWhile p xs) = filter q xs"
  by (induction xs) auto

lemma filter_isdigit_strip: "filter isdigit (strip s) = filter isdigit s"
proof -
  have ws: "\<And>x. isspace x \<Longrightarrow> \<not> isdigit x"
    using isdigit_not_isspace by blast
  have "filter isdigit (strip s)
      = rev (filter isdigit (dropWhile isspace (rev (dropWhile isspace s))))"
    by (simp add: strip_def rstrip_def lstrip_def rev_filter)
  also have "\<dots> = rev (filter isdigit (rev (dropWhile isspace s)))"
    by (simp add: filter_dropWhile_disjoint [OF ws])
  also have "\<dots> = filter isdigit (dropWhile isspace s)"
    by (simp add: rev_filter)
  also have "\<dots> = filter isdigit s"
    by (simp add: filter_dropWhile_disjoint [OF ws])
  finally show ?thesis .
qed

lemma normalize_phone_unfold:
  "normalize_phone raw =
     (let rest = dropWhile (\<lambda>c. c = CHR ''0'') (filter isdigit raw)
      in if length rest \<ge> 10 \<and> take 2 rest \<noteq> ''55'' then ''55'' @ rest else rest)"
  by (simp add: normalize_phone_def filter_isdigit_strip lstrip_def
      startswith_def Let_def numeral_2_eq_2)

lemma isdigit_5: "isdigit CHR ''5''"
  by (simp add: isdigit_def)

lemma normalize_phone_idem: "normalize_phone (normalize_phone s) = normalize_phone s"
proof -
  define r where "r = dropWhile (\<lambda>c. c = CHR ''0'') (filter isdigit s)"
  have dig: "filter isdigit r = r"
    unfolding r_def by (auto simp: filter_id_conv dest: set_dropWhileD)
  have nz: "dropWhile (\<lambda>c. c = CHR ''0'') r = r"
    unfolding r_def by (simp add: dropWhile_idem)
  show ?thesis
  proof (cases "length r \<ge> 10 \<and> take 2 r \<noteq> ''55''")
    case True
    then have 1: "normalize_phone s = ''55'' @ r"
      by (simp add: normalize_phone_unfold r_def Let_def)
    have "normalize_phone (''55'' @ r) = ''55'' @ r"
      by (simp add: normalize_phone_unfold Let_def isdigit_5 dig)
    with 1 show ?thesis by simp
  next
    case False
    then have 1: "normalize_phone s = r"
      by (auto simp add: normalize_phone_unfold r_def Let_def)
    have "normalize_phone r = r"
      using False by (auto simp add: normalize_phone_unfold Let_def dig nz)
    with 1 show ?thesis by simp
  qed
qed







text \<open>
  C9. \<open>normalize_phone\<close> is idempotent: normalising a normalised number changes nothing.
\<close>

theorem C9_normalize_phone_idempotent:
  "normalize_phone (normalize_phone s) = normalize_phone s"
  by (rule normalize_phone_idem)

theorem C9_normalize_phone_idempotent_witness:
  "normalize_phone ''5511912345678'' = ''5511912345678''
   \<and> normalize_phone (normalize_phone ''+55 11 91234-5678'') = normalize_phone ''+55 11 91234-5678''"
proof -
  have "normalize_phone ''5511912345678'' = ''5511912345678''"
    by (simp add: normalize_phone_def string_eval)
  then show ?thesis
    using C9_normalize_phone_idempotent [of "''+55 11 91234-5678''"] by simp
qed

section \<open>The loop: what it writes and what it does\<close>

lemma ledger_append_row:
  "ledger (w\<lparr>files := append_row ''resultado_envio.csv'' i tel status http d (files w)\<rparr>)
     = ledger w @ (if ledger w = [] then [FIELDNAMES] else []) @ [record_row i tel status http d]"
  by (auto simp: ledger_def append_row_def Let_def split: option.splits)

lemma ledger_events_update: "ledger (w\<lparr>events := evs\<rparr>) = ledger w"
  by (simp add: ledger_def)

lemma dispatch_one_events:
  "events (dispatch_one e st i c w) = events w @ fst (send_to e st c)"
  by (simp add: dispatch_one_def send_to_def Let_def split: prod.splits sum.splits)

lemma dispatch_one_ledger:
  "ledger (dispatch_one e st i c w)
     = ledger w @ (if ledger w = [] then [FIELDNAMES] else []) @ [outcome_row e st i c]"
proof -
  obtain evs res where s: "send_to e st c = (evs, res)"
    by (cases "send_to e st c")
  show ?thesis
  proof (cases res)
    case (Inl ex)
    with s show ?thesis
      using ledger_append_row [where w = "w\<lparr>events := events w @ evs\<rparr>"]
      by (simp add: dispatch_one_def outcome_row_def send_to_def Let_def ledger_events_update)
  next
    case (Inr resp)
    with s show ?thesis
      using ledger_append_row [where w = "w\<lparr>events := events w @ evs\<rparr>"]
      by (simp add: dispatch_one_def outcome_row_def send_to_def Let_def ledger_events_update)
  qed
qed

lemma dispatch_one_other_files:
  "q \<noteq> ''resultado_envio.csv'' \<Longrightarrow> files (dispatch_one e st i c w) q = files w q"
  by (simp add: dispatch_one_def append_row_def Let_def split: prod.splits sum.splits)

lemma main_loop_events:
  "events (main_loop e st i cs w) = events w @ concat (map (\<lambda>c. fst (send_to e st c)) cs)"
  by (induction cs arbitrary: i w) (simp_all add: dispatch_one_events)

lemma main_loop_ledger:
  "ledger (main_loop e st i cs w)
     = ledger w @ (if ledger w = [] \<and> cs \<noteq> [] then [FIELDNAMES] else []) @ outcome_rows e st i cs"
  by (induction cs arbitrary: i w) (simp_all add: dispatch_one_ledger)

lemma main_loop_other_files:
  "q \<noteq> ''resultado_envio.csv'' \<Longrightarrow> files (main_loop e st i cs w) q = files w q"
  by (induction cs arbitrary: i w) (simp_all add: dispatch_one_other_files)

lemma size_limit_eq: "size_limit = 66060288"
  by (simp add: size_limit_def)

lemma length_huge: "length huge = 66060289"
  by (simp add: huge_def)

lemma send_oversize:
  assumes "read_image_bytes e src = Inr raw"
    and "length (ensure_jpeg_bytes e raw) > size_limit"
  shows "send_image_with_caption_base64 e api tok num sid txt src fn
     = ([ReadImage src, Normalize],
        Inl (Exn ValueError
              (''Arquivo > 63MB ('' @ str_nat (length (ensure_jpeg_bytes e raw)) @ '' bytes)'') None))"
  using assms by (simp add: send_image_with_caption_base64_def Let_def)

lemma map_enumerate_Suc:
  "map (\<lambda>(k, c). g k c) (enumerate (Suc n) cs) = map (\<lambda>(k, c). g (Suc k) c) (enumerate n cs)"
  by (induction cs arbitrary: n) simp_all

lemma outcome_rows_map:
  "outcome_rows e st i cs = map (\<lambda>(k, c). outcome_row e st (i + int k) c) (enumerate 0 cs)"
proof (induction cs arbitrary: i)
  case Nil show ?case by simp
next
  case (Cons c cs)
  have "map (\<lambda>(k, c). outcome_row e st (i + int k) c) (enumerate (Suc 0) cs)
      = map (\<lambda>(k, c). outcome_row e st (i + int (Suc k)) c) (enumerate 0 cs)"
    by (rule map_enumerate_Suc)
  also have "\<dots> = map (\<lambda>(k, c). outcome_row e st (i + 1 + int k) c) (enumerate 0 cs)"
    by (auto simp: algebra_simps)
  finally show ?case using Cons by simp
qed

lemma demo_read_image: "read_image_bytes (demo_env g img) ''banner.jpg'' = Inr img"
  by (simp add: read_image_bytes_def demo_env_def startswith_def)

lemma demo_ensure: "ensure_jpeg_bytes (demo_env g img) b = b"
  by (simp add: ensure_jpeg_bytes_def demo_env_def)

text \<open>
  C1, as the code has it. When the image, after normalisation, is larger than
  66,060,288 bytes, the batch is not aborted: the size check runs inside every send, the
  loop catches the error, and every contact gets a \<open>FALHA\<close> row with code 0 and the
  size message; the image is read once per contact and no request is posted.
\<close>

theorem C1_amended:
  assumes "read_image_bytes e (IMAGE st) = Inr raw"
    and "length (ensure_jpeg_bytes e raw) > 66060288"
  shows "ledger (main_loop e st i cs w)
       = ledger w @ (if ledger w = [] \<and> cs \<noteq> [] then [FIELDNAMES] else [])
         @ map (\<lambda>(k, c). record_row (i + int k) (telefone c) ''FALHA'' 0
                  (JObj [(''erro'', JStr (''Arquivo > 63MB (''
                     @ str_nat (length (ensure_jpeg_bytes e raw)) @ '' bytes)''))]))
             (enumerate 0 cs)
     \<and> events (main_loop e st i cs w)
       = events w @ concat (map (\<lambda>c. [ReadImage (IMAGE st), Normalize]) cs)"
proof -
  have big: "length (ensure_jpeg_bytes e raw) > size_limit"
    using assms(2) by (simp add: size_limit_eq)
  have s: "\<And>c. send_to e st c = ([ReadImage (IMAGE st), Normalize],
        Inl (Exn ValueError
              (''Arquivo > 63MB ('' @ str_nat (length (ensure_jpeg_bytes e raw)) @ '' bytes)'') None))"
    unfolding send_to_def by (rule send_oversize [OF assms(1) big])
  have r: "\<And>j c. outcome_row e st j c = record_row j (telefone c) ''FALHA'' 0
                  (JObj [(''erro'', JStr (''Arquivo > 63MB (''
                     @ str_nat (length (ensure_jpeg_bytes e raw)) @ '' bytes)''))])"
    by (simp add: outcome_row_def s http_code_of_def)
  show ?thesis
    by (simp add: main_loop_ledger main_loop_events outcome_rows_map s r)
qed

text \<open>C1 on a run with two contacts and an image of 66,060,289 bytes.\<close>

theorem C1_amended_witness:
  "ledger (main_loop (demo_env gateway_ok huge) demo_settings 1 [ana, bea] world0)
     = [[''linha'', ''telefone'', ''status'', ''http'', ''detalhe''],
        [''1'', ''5511999990000'', ''FALHA'', ''0'', ''{\"erro\":\"Arquivo > 63MB (66060289 bytes)\"}''],
        [''2'', ''5511888880000'', ''FALHA'', ''0'', ''{\"erro\":\"Arquivo > 63MB (66060289 bytes)\"}'']]
   \<and> events (main_loop (demo_env gateway_ok huge) demo_settings 1 [ana, bea] world0)
     = [ReadImage ''banner.jpg'', Normalize, ReadImage ''banner.jpg'', Normalize]"
proof -
  have 1: "read_image_bytes (demo_env gateway_ok huge) (IMAGE demo_settings) = Inr huge"
    by (simp add: demo_read_image demo_settings_def)
  have 2: "length (ensure_jpeg_bytes (demo_env gateway_ok huge) huge) > 66060288"
    by (simp add: demo_ensure length_huge)
  show ?thesis
    using C1_amended [OF 1 2, of 1 "[ana, bea]" world0]
    by (simp add: demo_ensure length_huge ledger_def world0_def FIELDNAMES_def record_row_def
        str_eval json_quote_def json_escape_char_def ana_def bea_def demo_settings_def
        enumerate_eq_zip)
qed

lemma demo_main:
  "main (demo_env g img) demo_environ ''teste.csv'' 0 w
     = Inr (main_loop (demo_env g img) demo_settings 1 [ana, bea] w)"
proof -
  have st: "settings_of demo_environ = demo_settings"
    by (simp add: settings_of_def demo_environ_def demo_settings_def or_else_def
        strip_def lstrip_def rstrip_def isspace_def)
  have ld: "load_contacts_csv (demo_env g img) ''teste.csv'' = Inr [ana, bea]"
    by (simp add: load_contacts_csv_def load_contacts_rows_def demo_env_def header_cell_def
        tel_aliases_def nome_aliases_def contact_of_line_def any_cell_def normalize_phone_def
        ana_def bea_def string_eval)
  show ?thesis
    by (simp add: main_def st ld) (simp add: demo_settings_def demo_env_def startswith_def)
qed

lemma demo_huge_row:
  "outcome_row (demo_env g huge) demo_settings j c
     = record_row j (telefone c) ''FALHA'' 0
         (JObj [(''erro'', JStr ''Arquivo > 63MB (66060289 bytes)'')])"
proof -
  have 1: "read_image_bytes (demo_env g huge) (IMAGE demo_settings) = Inr huge"
    by (simp add: demo_read_image demo_settings_def)
  have 2: "length (ensure_jpeg_bytes (demo_env g huge) huge) > size_limit"
    by (simp add: demo_ensure length_huge size_limit_eq)
  show ?thesis
    unfolding outcome_row_def send_to_def send_oversize [OF 1 2]
    by (simp add: http_code_of_def demo_ensure length_huge str_eval)
qed

lemma ledger_world0: "ledger world0 = []"
  by (simp add: ledger_def world0_def)

lemmas row_eval = record_row_def FIELDNAMES_def str_eval json_quote_def json_escape_char_def

text \<open>
  C1 as stated fails. With an image of 66,060,289 bytes the program does not stop: it
  returns normally, and the result file holds one \<open>FALHA\<close> row for each of the two
  contacts.
\<close>

theorem C1_counterexample:
  "length (ensure_jpeg_bytes (demo_env gateway_ok huge) huge) > 66060288
   \<and> main (demo_env gateway_ok huge) demo_environ ''teste.csv'' 0 world0
     = Inr (main_loop (demo_env gateway_ok huge) demo_settings 1 [ana, bea] world0)
   \<and> ledger (main_loop (demo_env gateway_ok huge) demo_settings 1 [ana, bea] world0)
     = [[''linha'', ''telefone'', ''status'', ''http'', ''detalhe''],
        [''1'', ''5511999990000'', ''FALHA'', ''0'', ''{\"erro\":\"Arquivo > 63MB (66060289 bytes)\"}''],
        [''2'', ''5511888880000'', ''FALHA'', ''0'', ''{\"erro\":\"Arquivo > 63MB (66060289 bytes)\"}'']]"
proof -
  have "length (ensure_jpeg_bytes (demo_env gateway_ok huge) huge) > 66060288"
    by (simp add: demo_ensure length_huge)
  moreover have "ledger (main_loop (demo_env gateway_ok huge) demo_settings 1 [ana, bea] world0)
     = [[''linha'', ''telefone'', ''status'', ''http'', ''detalhe''],
        [''1'', ''5511999990000'', ''FALHA'', ''0'', ''{\"erro\":\"Arquivo > 63MB (66060289 bytes)\"}''],
        [''2'', ''5511888880000'', ''FALHA'', ''0'', ''{\"erro\":\"Arquivo > 63MB (66060289 bytes)\"}'']]"
    by (subst main_loop_ledger) (simp add: ledger_world0 demo_huge_row row_eval ana_def bea_def)
  ultimately show ?thesis
    by (simp add: demo_main)
qed

text \<open>What a send does, case by case.\<close>

lemma send_read_fails:
  "read_image_bytes e src = Inl ex \<Longrightarrow>
   send_image_with_caption_base64 e api tok num sid txt src fn = ([ReadImage src], Inl ex)"
  by (simp add: send_image_with_caption_base64_def)

lemma send_within_limit:
  assumes "read_image_bytes e src = Inr raw"
    and "length (ensure_jpeg_bytes e raw) \<le> size_limit"
  shows "\<exists>rq. fst (send_image_with_caption_base64 e api tok num sid txt src fn)
            = [ReadImage src, Normalize, Encode, Post rq]
        \<and> f_base64 (p_file (req_json rq)) = to_base64 e (ensure_jpeg_bytes e raw)
        \<and> p_number (req_json rq) = num"
  using assms
  by (simp add: send_image_with_caption_base64_def Let_def split: sum.splits option.splits)

lemma send_count_read:
  "count_list (fst (send_image_with_caption_base64 e api tok num sid txt src fn)) (ReadImage src) = 1"
  by (simp add: send_image_with_caption_base64_def Let_def split: sum.splits option.splits)

lemma send_posts:
  "Post rq \<in> set (fst (send_image_with_caption_base64 e api tok num sid txt src fn)) \<Longrightarrow>
   p_text (req_json rq) = strip (case txt of None \<Rightarrow> [] | Some t \<Rightarrow> t)
   \<and> f_name (p_file (req_json rq)) = file_name fn src
   \<and> f_mimetype (p_file (req_json rq)) = ''image/jpeg''
   \<and> p_number (req_json rq) = num"
  by (auto simp add: send_image_with_caption_base64_def Let_def split: sum.splits option.splits if_splits)

lemma count_list_concat:
  "count_list (concat xss) a = sum_list (map (\<lambda>xs. count_list xs a) xss)"
  by (induction xss) simp_all

lemma sum_list_const: "sum_list (map (\<lambda>x. (n::nat)) xs) = n * length xs"
  by (induction xs) simp_all

text \<open>
  C2, as the code has it. Nothing is cached between contacts: every pass of the loop
  reads the image from the configured source again, and, when the image is read and is
  within the size limit, normalises and encodes it again; a run over \<open>n\<close> contacts
  acquires the image \<open>n\<close> times and encodes it \<open>n\<close> times.
\<close>

theorem C2_amended:
  "count_list (events (main_loop e st i cs w)) (ReadImage (IMAGE st))
     = count_list (events w) (ReadImage (IMAGE st)) + length cs
   \<and> (read_image_bytes e (IMAGE st) = Inr raw \<and> length (ensure_jpeg_bytes e raw) \<le> 66060288 \<longrightarrow>
        count_list (events (main_loop e st i cs w)) Encode = count_list (events w) Encode + length cs
        \<and> count_list (events (main_loop e st i cs w)) Normalize
            = count_list (events w) Normalize + length cs)"
proof -
  have r: "\<And>c. count_list (fst (send_to e st c)) (ReadImage (IMAGE st)) = 1"
    unfolding send_to_def by (rule send_count_read)
  have 1: "count_list (events (main_loop e st i cs w)) (ReadImage (IMAGE st))
     = count_list (events w) (ReadImage (IMAGE st)) + length cs"
    by (simp add: main_loop_events count_list_concat r comp_def sum_list_const)
  have 2: "count_list (events (main_loop e st i cs w)) Encode = count_list (events w) Encode + length cs
        \<and> count_list (events (main_loop e st i cs w)) Normalize
            = count_list (events w) Normalize + length cs"
    if a: "read_image_bytes e (IMAGE st) = Inr raw" and b: "length (ensure_jpeg_bytes e raw) \<le> 66060288"
  proof -
    have b': "length (ensure_jpeg_bytes e raw) \<le> size_limit"
      using b by (simp add: size_limit_eq)
    have "\<And>c. count_list (fst (send_to e st c)) Encode = 1
            \<and> count_list (fst (send_to e st c)) Normalize = 1"
    proof -
      fix c
      obtain rq where "fst (send_to e st c) = [ReadImage (IMAGE st), Normalize, Encode, Post rq]"
        using send_within_limit [OF a b'] unfolding send_to_def by blast
      then show "count_list (fst (send_to e st c)) Encode = 1
            \<and> count_list (fst (send_to e st c)) Normalize = 1" by simp
    qed
    then show ?thesis
      by (simp add: main_loop_events count_list_concat comp_def sum_list_const)
  qed
  from 1 2 show ?thesis by blast
qed

lemma demo_post: "requests_post (demo_env g img) = g"
  by (simp add: demo_env_def)

lemma demo_base64: "to_base64 (demo_env g img) jpeg3 = ''/9j/''"
  by (simp add: to_base64_def demo_env_def jpeg3_def)

lemma jpeg3_small: "\<not> size_limit < length jpeg3"
  by (simp add: size_limit_def jpeg3_def)

lemma demo_file_name: "file_name None ''banner.jpg'' = ''banner.jpg''"
  by (simp add: file_name_def chosen_name_def forced_jpg_def path_name_def string_eval)

lemma demo_url: "rstrip (\<lambda>c. c = CHR ''/'') ''https://demo.digisac.chat/api/v1'' = ''https://demo.digisac.chat/api/v1''"
  by (simp add: rstrip_def)

lemma strip_Oi: "strip ''Oi!'' = ''Oi!''"
  by (simp add: strip_def lstrip_def rstrip_def isspace_def)

lemmas demo_send_eval =
  send_to_def send_image_with_caption_base64_def demo_settings_def demo_read_image demo_ensure
  jpeg3_small demo_base64 demo_post demo_file_name demo_url strip_Oi raise_for_status_def

lemma demo_send_ok:
  "send_to (demo_env gateway_ok jpeg3) demo_settings c
     = ([ReadImage ''banner.jpg'', Normalize, Encode,
         Post \<lparr>req_url = ''https://demo.digisac.chat/api/v1/messages'',
               req_authorization = ''Bearer token-1234'',
               req_content_type = ''application/json'',
               req_json = \<lparr>p_text = ''Oi!'', p_number = telefone c, p_serviceId = ''svc-1'',
                            p_file = \<lparr>f_base64 = ''/9j/'', f_mimetype = ''image/jpeg'',
                                       f_name = ''banner.jpg''\<rparr>\<rparr>\<rparr>],
        Inr (JObj [(''id'', JStr ''m1'')]))"
  by (simp add: demo_send_eval gateway_ok_def)

lemma demo_send_422:
  "send_to (demo_env gateway_422 jpeg3) demo_settings c
     = ([ReadImage ''banner.jpg'', Normalize, Encode,
         Post \<lparr>req_url = ''https://demo.digisac.chat/api/v1/messages'',
               req_authorization = ''Bearer token-1234'',
               req_content_type = ''application/json'',
               req_json = \<lparr>p_text = ''Oi!'', p_number = telefone c, p_serviceId = ''svc-1'',
                            p_file = \<lparr>f_base64 = ''/9j/'', f_mimetype = ''image/jpeg'',
                                       f_name = ''banner.jpg''\<rparr>\<rparr>\<rparr>],
        Inl (Exn HTTPError
              ''422 Client Error: Unprocessable Entity for url: https://demo.digisac.chat/api/v1/messages | body={\"error\":\"invalid number\"}''
              None))"
  by (simp add: demo_send_eval gateway_422_def str_eval)

text \<open>
  C2 as stated fails. In a run over two contacts the image is read twice and encoded
  twice, not once.
\<close>

theorem C2_counterexample:
  "count_list (events (main_loop (demo_env gateway_ok jpeg3) demo_settings 1 [ana, bea] world0))
      (ReadImage ''banner.jpg'') = 2
   \<and> count_list (events (main_loop (demo_env gateway_ok jpeg3) demo_settings 1 [ana, bea] world0))
      Encode = 2"
  by (subst main_loop_events, subst main_loop_events) (simp add: demo_send_ok world0_def)

text \<open>C2 on a run over three contacts: three reads and three encodings.\<close>

theorem C2_amended_witness:
  "read_image_bytes (demo_env gateway_ok jpeg3) (IMAGE demo_settings) = Inr jpeg3
   \<and> length (ensure_jpeg_bytes (demo_env gateway_ok jpeg3) jpeg3) \<le> 66060288
   \<and> count_list (events (main_loop (demo_env gateway_ok jpeg3) demo_settings 1 [ana, bea, ana] world0))
        (ReadImage ''banner.jpg'') = 3
   \<and> count_list (events (main_loop (demo_env gateway_ok jpeg3) demo_settings 1 [ana, bea, ana] world0))
        Encode = 3"
proof -
  have 1: "read_image_bytes (demo_env gateway_ok jpeg3) (IMAGE demo_settings) = Inr jpeg3"
    by (simp add: demo_read_image demo_settings_def)
  have 2: "length (ensure_jpeg_bytes (demo_env gateway_ok jpeg3) jpeg3) \<le> 66060288"
    by (simp add: demo_ensure jpeg3_def)
  have 3: "IMAGE demo_settings = ''banner.jpg''"
    by (simp add: demo_settings_def)
  show ?thesis
    using C2_amended [of "demo_env gateway_ok jpeg3" demo_settings 1 "[ana, bea, ana]" world0 jpeg3] 1 2
    by (simp add: 3 world0_def)
qed

text \<open>
  C3 on the code. The gateway answers 422 with the body \<open>{"error":"invalid number"}\<close>
  to every message. Each contact gets a \<open>FALHA\<close> row and the run goes on to the next
  contact, and the detail holds the status line and the body; but the code column holds
  0, not 422: the sender raises a new \<open>HTTPError\<close> built from the message alone, which
  carries no response, so the loop reads no status code from it.
\<close>

theorem C3_http_code_lost:
  "requests_post (demo_env gateway_422 jpeg3) rq
     = Inr \<lparr>status_code = 422, reason = ''Unprocessable Entity'', resp_url = req_url rq,
            resp_text = ''{\"error\":\"invalid number\"}'', content = [],
            json_result = Inr (JObj [(''error'', JStr ''invalid number'')])\<rparr>
   \<and> ledger (main_loop (demo_env gateway_422 jpeg3) demo_settings 1 [ana, bea] world0)
     = [FIELDNAMES,
        record_row 1 ''5511999990000'' ''FALHA'' 0
          (JObj [(''erro'', JStr ''422 Client Error: Unprocessable Entity for url: https://demo.digisac.chat/api/v1/messages | body={\"error\":\"invalid number\"}'')]),
        record_row 2 ''5511888880000'' ''FALHA'' 0
          (JObj [(''erro'', JStr ''422 Client Error: Unprocessable Entity for url: https://demo.digisac.chat/api/v1/messages | body={\"error\":\"invalid number\"}'')])]
   \<and> map (take 4) (ledger (main_loop (demo_env gateway_422 jpeg3) demo_settings 1 [ana, bea] world0))
     = [[''linha'', ''telefone'', ''status'', ''http''],
        [''1'', ''5511999990000'', ''FALHA'', ''0''],
        [''2'', ''5511888880000'', ''FALHA'', ''0'']]"
proof -
  have l: "ledger (main_loop (demo_env gateway_422 jpeg3) demo_settings 1 [ana, bea] world0)
     = [FIELDNAMES,
        record_row 1 ''5511999990000'' ''FALHA'' 0
          (JObj [(''erro'', JStr ''422 Client Error: Unprocessable Entity for url: https://demo.digisac.chat/api/v1/messages | body={\"error\":\"invalid number\"}'')]),
        record_row 2 ''5511888880000'' ''FALHA'' 0
          (JObj [(''erro'', JStr ''422 Client Error: Unprocessable Entity for url: https://demo.digisac.chat/api/v1/messages | body={\"error\":\"invalid number\"}'')])]"
    by (subst main_loop_ledger)
      (simp add: ledger_world0 outcome_row_def demo_send_422 http_code_of_def ana_def bea_def)
  show ?thesis
    unfolding l by (simp add: demo_env_def gateway_422_def record_row_def FIELDNAMES_def str_eval)
qed

section \<open>Loading contacts\<close>

lemma load_lines_map_filter:
  "load_lines k j body acc = acc @ List.map_filter (contact_of_line k j) body"
  by (induction body arbitrary: acc) (simp_all split: option.splits)

lemma normalize_phone_Nil: "normalize_phone [] = []"
  by (simp add: normalize_phone_def strip_def lstrip_def rstrip_def)

lemma not_any_cell_nth: "\<not> any_cell line \<Longrightarrow> k < length line \<Longrightarrow> line ! k = []"
  by (auto simp: any_cell_def list_ex_iff)

lemma contact_of_line_None:
  "contact_of_line k j line = None \<longleftrightarrow>
     normalize_phone (if k < length line then line ! k else []) = []"
proof (cases "any_cell line")
  case True
  then show ?thesis by (simp add: contact_of_line_def Let_def)
next
  case False
  then have "normalize_phone (if k < length line then line ! k else []) = []"
    by (simp add: normalize_phone_Nil not_any_cell_nth)
  with False show ?thesis by (simp add: contact_of_line_def)
qed

lemma contact_of_line_Some:
  "contact_of_line k j line = Some c \<Longrightarrow>
     telefone c = normalize_phone (if k < length line then line ! k else []) \<and> telefone c \<noteq> []"
  by (auto simp: contact_of_line_def Let_def split: if_splits)

lemma map_filter_phones:
  "map telefone (List.map_filter (contact_of_line k j) body)
     = filter (\<lambda>t. t \<noteq> [])
         (map (\<lambda>line. normalize_phone (if k < length line then line ! k else [])) body)"
proof -
  define f where "f = (\<lambda>line. normalize_phone (if k < length line then line ! k else []))"
  have n: "\<And>line. contact_of_line k j line = None \<Longrightarrow> f line = []"
    by (simp add: f_def contact_of_line_None)
  have s: "\<And>line c. contact_of_line k j line = Some c \<Longrightarrow> f line = telefone c \<and> telefone c \<noteq> []"
    unfolding f_def by (metis contact_of_line_Some)
  have "map telefone (List.map_filter (contact_of_line k j) body)
      = filter (\<lambda>t. t \<noteq> []) (map f body)"
  proof (induction body)
    case Nil show ?case by simp
  next
    case (Cons line body)
    show ?case
    proof (cases "contact_of_line k j line")
      case None
      then show ?thesis using Cons n [OF None] by simp
    next
      case (Some c)
      then show ?thesis using Cons s [OF Some] by simp
    qed
  qed
  then show ?thesis by (simp add: f_def)
qed

lemma map_filter_phones_nonempty:
  "c \<in> set (List.map_filter (contact_of_line k j) body) \<Longrightarrow> telefone c \<noteq> []"
  by (auto simp: List.map_filter_def dest: contact_of_line_Some)

lemma outcome_row_fields:
  "outcome_row e st i c ! 0 = str_int i \<and> outcome_row e st i c ! Suc 0 = telefone c"
  by (simp add: outcome_row_def record_row_def split: sum.splits)

lemma outcome_rows_index:
  "map (\<lambda>r. r ! 0) (outcome_rows e st i cs) = map str_int [i..i + int (length cs) - 1]"
proof (induction cs arbitrary: i)
  case Nil show ?case by simp
next
  case (Cons c cs)
  have "[i..i + int (length (c # cs)) - 1] = i # [i + 1..i + 1 + int (length cs) - 1]"
    by (subst upto_rec1) simp_all
  then show ?case using Cons by (simp add: outcome_row_fields)
qed

lemma outcome_rows_phone:
  "map (\<lambda>r. r ! 1) (outcome_rows e st i cs) = map telefone cs"
  by (induction cs arbitrary: i) (simp_all add: outcome_row_fields)

text \<open>
  C5. For every contact table whose header has a phone column (the first at index \<open>k\<close>),
  loading succeeds; no contact it emits has an empty phone; the contacts are those of the
  rows with a valid phone, in the order of the rows, so the phones emitted are the
  non-empty normalised phones of the rows in row order; and for the contacts sent (all of
  them, or the first \<open>n\<close> under a limit) the loop appends one row per contact whose
  first field is the contact's position in that sequence, counted from 1, and whose
  second field is its phone.
\<close>

theorem C5_load_and_row_index:
  assumes "first_index (\<lambda>h. h \<in> set tel_aliases) (map header_cell hdr) = Some k"
  shows "\<exists>cs. load_contacts_rows e (hdr # body) = Inr cs
      \<and> (\<forall>c \<in> set cs. telefone c \<noteq> [])
      \<and> cs = List.map_filter
               (contact_of_line k (first_index (\<lambda>h. h \<in> set nome_aliases) (map header_cell hdr))) body
      \<and> map telefone cs
          = filter (\<lambda>t. t \<noteq> [])
              (map (\<lambda>line. normalize_phone (if k < length line then line ! k else [])) body)
      \<and> (\<forall>n. \<exists>rows.
            ledger (main_loop e st 1 (take n cs) w)
              = ledger w @ (if ledger w = [] \<and> take n cs \<noteq> [] then [FIELDNAMES] else []) @ rows
            \<and> map (\<lambda>r. r ! 0) rows = map str_int [1..int (length (take n cs))]
            \<and> map (\<lambda>r. r ! 1) rows = map telefone (take n cs))"
proof -
  define j where "j = first_index (\<lambda>h. h \<in> set nome_aliases) (map header_cell hdr)"
  define cs where "cs = List.map_filter (contact_of_line k j) body"
  have l: "load_contacts_rows e (hdr # body) = Inr cs"
    using assms by (simp add: load_contacts_rows_def load_lines_map_filter cs_def j_def)
  have ne: "\<forall>c \<in> set cs. telefone c \<noteq> []"
    unfolding cs_def using map_filter_phones_nonempty by blast
  have ph: "map telefone cs
          = filter (\<lambda>t. t \<noteq> [])
              (map (\<lambda>line. normalize_phone (if k < length line then line ! k else [])) body)"
    unfolding cs_def by (rule map_filter_phones)
  have rows: "\<exists>rows.
            ledger (main_loop e st 1 (take n cs) w)
              = ledger w @ (if ledger w = [] \<and> take n cs \<noteq> [] then [FIELDNAMES] else []) @ rows
            \<and> map (\<lambda>r. r ! 0) rows = map str_int [1..int (length (take n cs))]
            \<and> map (\<lambda>r. r ! 1) rows = map telefone (take n cs)" for n
  proof (intro exI conjI)
    show "ledger (main_loop e st 1 (take n cs) w)
        = ledger w @ (if ledger w = [] \<and> take n cs \<noteq> [] then [FIELDNAMES] else [])
          @ outcome_rows e st 1 (take n cs)"
      by (rule main_loop_ledger)
    show "map (\<lambda>r. r ! 0) (outcome_rows e st 1 (take n cs)) = map str_int [1..int (length (take n cs))]"
      using outcome_rows_index [of e st 1 "take n cs"] by simp
    show "map (\<lambda>r. r ! 1) (outcome_rows e st 1 (take n cs)) = map telefone (take n cs)"
      by (rule outcome_rows_phone)
  qed
  show ?thesis
    using l ne ph rows unfolding cs_def j_def by blast
qed

lemma demo_header:
  "first_index (\<lambda>h. h \<in> set tel_aliases) (map header_cell [''nome'', ''telefone'']) = Some 1"
  by (simp add: header_cell_def tel_aliases_def string_eval)

lemma demo_load:
  "load_contacts_rows e
     [[''nome'', ''telefone''], [''Ana'', ''11999990000''], ['''', ''zz''], [''Bea'', ''5511888880000'']]
   = Inr [ana, bea]"
  by (simp add: load_contacts_rows_def header_cell_def
        tel_aliases_def nome_aliases_def contact_of_line_def any_cell_def normalize_phone_def
        ana_def bea_def string_eval)

text \<open>
  C5 on the table with the rows \<open>Ana, 11999990000\<close>, \<open>(empty), zz\<close> and
  \<open>Bea, 5511888880000\<close>: two contacts are loaded and two rows are appended, numbered
  1 and 2.
\<close>

theorem C5_load_and_row_index_witness:
  "first_index (\<lambda>h. h \<in> set tel_aliases) (map header_cell [''nome'', ''telefone'']) = Some 1
   \<and> load_contacts_rows (demo_env gateway_ok jpeg3)
       [[''nome'', ''telefone''], [''Ana'', ''11999990000''], ['''', ''zz''], [''Bea'', ''5511888880000'']]
     = Inr [ana, bea]
   \<and> (\<exists>rows. ledger (main_loop (demo_env gateway_ok jpeg3) demo_settings 1 [ana, bea] world0)
                 = FIELDNAMES # rows
             \<and> map (\<lambda>r. r ! 0) rows = [''1'', ''2'']
             \<and> map (\<lambda>r. r ! 1) rows = [''5511999990000'', ''5511888880000''])"
proof -
  let ?e = "demo_env gateway_ok jpeg3"
  let ?body = "[[''Ana'', ''11999990000''], ['''', ''zz''], [''Bea'', ''5511888880000'']]"
  obtain cs where
    1: "load_contacts_rows ?e ([''nome'', ''telefone''] # ?body) = Inr cs" and
    2: "\<forall>n. \<exists>rows.
            ledger (main_loop ?e demo_settings 1 (take n cs) world0)
              = ledger world0 @ (if ledger world0 = [] \<and> take n cs \<noteq> [] then [FIELDNAMES] else []) @ rows
            \<and> map (\<lambda>r. r ! 0) rows = map str_int [1..int (length (take n cs))]
            \<and> map (\<lambda>r. r ! 1) rows = map telefone (take n cs)"
    using C5_load_and_row_index [OF demo_header, where e = ?e and body = ?body
        and st = demo_settings and w = world0]
    by blast
  have cs: "cs = [ana, bea]"
    using 1 by (simp add: demo_load)
  obtain rows where
    3: "ledger (main_loop ?e demo_settings 1 [ana, bea] world0) = FIELDNAMES # rows" and
    4: "map (\<lambda>r. r ! 0) rows = map str_int [1..2]" and
    5: "map (\<lambda>r. r ! 1) rows = map telefone [ana, bea]"
    using 2 [rule_format, of 2] by (auto simp: cs ledger_world0)
  have 6: "map str_int [1..2] = [''1'', ''2'']"
    by (simp add: upto_rec1 str_eval)
  have 7: "\<exists>rows. ledger (main_loop ?e demo_settings 1 [ana, bea] world0) = FIELDNAMES # rows
             \<and> map (\<lambda>r. r ! 0) rows = [''1'', ''2'']
             \<and> map (\<lambda>r. r ! 1) rows = [''5511999990000'', ''5511888880000'']"
    using 3 4 5 6 by (simp add: ana_def bea_def)
  from demo_header demo_load [of ?e] 7 show ?thesis
    by blast
qed

section \<open>The result file: the header\<close>

lemma rows_at_append_row:
  "rows_at (append_row p linha tel status http d fs) p
     = rows_at fs p @ (if rows_at fs p = [] then [FIELDNAMES] else [])
       @ [record_row linha tel status http d]"
  by (auto simp: rows_at_def append_row_def Let_def split: option.splits)

lemma append_row_other: "q \<noteq> p \<Longrightarrow> append_row p linha tel status http d fs q = fs q"
  by (simp add: append_row_def Let_def)

lemma rows_at_append_all:
  "rows_at (append_all p ocs fs) p
     = rows_at fs p @ (if rows_at fs p = [] \<and> ocs \<noteq> [] then [FIELDNAMES] else []) @ map row_of ocs"
proof (induction ocs arbitrary: fs)
  case Nil show ?case by simp
next
  case (Cons oc ocs)
  obtain linha tel status http d where oc: "oc = (linha, tel, status, http, d)"
    by (cases oc)
  show ?case
    by (simp add: oc Cons rows_at_append_row row_of_def)
qed

lemma append_all_other: "q \<noteq> p \<Longrightarrow> append_all p ocs fs q = fs q"
  by (induction ocs arbitrary: fs) (auto simp: append_row_other)

lemma str_nat_hd: "str_nat n \<noteq> [] \<and> hd (str_nat n) \<in> set ''0123456789''"
proof (induction n rule: str_nat.induct)
  case (1 n)
  show ?case
  proof (cases "n < 10")
    case True
    then have "n \<in> {0,1,2,3,4,5,6,7,8,9}" by auto
    then show ?thesis
      by (subst (1 2) str_nat.simps) (auto simp: digit_char_def)
  next
    case False
    then show ?thesis
      using 1 by (subst (1 2) str_nat.simps) simp
  qed
qed

lemma str_int_not_linha: "str_int i \<noteq> ''linha''"
proof
  assume a: "str_int i = ''linha''"
  have "hd (str_int i) \<in> set ''-0123456789''"
    using str_nat_hd [of "nat i"] str_nat_hd [of "nat (- i)"] by (auto simp: str_int_def)
  with a show False by simp
qed

lemma row_of_not_header: "row_of oc \<noteq> FIELDNAMES"
  by (cases oc) (simp add: row_of_def record_row_def FIELDNAMES_def str_int_not_linha)

lemma count_list_map_row_of: "count_list (map row_of ocs) FIELDNAMES = 0"
  by (induction ocs) (simp_all add: row_of_not_header)

text \<open>
  C6. After any sequence of calls of \<open>append_row\<close> on one path, the file holds its
  former rows, then the header if the file was absent or empty and a call was made, then
  one record row per call, in call order. No record row equals the header row, so on a
  fresh path the header stands exactly once, as the first row, however many records
  follow; on an existing non-empty file no header is added. A single call appends
  exactly one record row.
\<close>

theorem C6_header_once:
  "rows_at (append_all p ocs fs) p
     = rows_at fs p @ (if rows_at fs p = [] \<and> ocs \<noteq> [] then [FIELDNAMES] else []) @ map row_of ocs
   \<and> (rows_at fs p = [] \<and> ocs \<noteq> [] \<longrightarrow>
        count_list (rows_at (append_all p ocs fs) p) FIELDNAMES = 1
        \<and> hd (rows_at (append_all p ocs fs) p) = FIELDNAMES)
   \<and> (rows_at fs p \<noteq> [] \<longrightarrow>
        count_list (rows_at (append_all p ocs fs) p) FIELDNAMES = count_list (rows_at fs p) FIELDNAMES)
   \<and> rows_at (append_row p linha tel status http d fs) p
     = rows_at fs p @ (if rows_at fs p = [] then [FIELDNAMES] else [])
       @ [record_row linha tel status http d]
   \<and> record_row linha tel status http d \<noteq> FIELDNAMES"
proof -
  have "record_row linha tel status http d \<noteq> FIELDNAMES"
    using row_of_not_header [of "(linha, tel, status, http, d)"] by (simp add: row_of_def)
  then show ?thesis
    by (simp add: rows_at_append_all rows_at_append_row count_list_map_row_of)
qed

text \<open>
  C6 on two appends to a fresh path, and on one append to a file that holds a header and
  a record already.
\<close>

theorem C6_header_once_witness:
  "rows_at (append_all ''resultado_envio.csv''
       [(1, ''5511999990000'', ''ENVIADO'', 200, JObj [(''resp'', JNull)]),
        (2, ''5511888880000'', ''FALHA'', 0, JObj [(''erro'', JStr ''timeout'')])] Map.empty)
     ''resultado_envio.csv''
   = [[''linha'', ''telefone'', ''status'', ''http'', ''detalhe''],
      [''1'', ''5511999990000'', ''ENVIADO'', ''200'', ''{\"resp\":null}''],
      [''2'', ''5511888880000'', ''FALHA'', ''0'', ''{\"erro\":\"timeout\"}'']]
   \<and> count_list (rows_at (append_all ''resultado_envio.csv''
       [(1, ''5511999990000'', ''ENVIADO'', 200, JObj [(''resp'', JNull)]),
        (2, ''5511888880000'', ''FALHA'', 0, JObj [(''erro'', JStr ''timeout'')])] Map.empty)
     ''resultado_envio.csv'') FIELDNAMES = 1
   \<and> rows_at (append_all ''resultado_envio.csv''
       [(3, ''5511777770000'', ''ENVIADO'', 200, JObj [(''resp'', JNull)])]
       [''resultado_envio.csv'' \<mapsto> [FIELDNAMES, [''1'', ''5511999990000'', ''FALHA'', ''0'', ''{}'']]])
     ''resultado_envio.csv''
   = [FIELDNAMES, [''1'', ''5511999990000'', ''FALHA'', ''0'', ''{}''],
      [''3'', ''5511777770000'', ''ENVIADO'', ''200'', ''{\"resp\":null}'']]"
proof -
  let ?ocs = "[(1, ''5511999990000'', ''ENVIADO'', 200, JObj [(''resp'', JNull)]),
        (2, ''5511888880000'', ''FALHA'', 0, JObj [(''erro'', JStr ''timeout'')])]"
  let ?oc3 = "[(3, ''5511777770000'', ''ENVIADO'', 200, JObj [(''resp'', JNull)])]"
  let ?fs = "[''resultado_envio.csv'' \<mapsto> [FIELDNAMES, [''1'', ''5511999990000'', ''FALHA'', ''0'', ''{}'']]]"
  have e: "rows_at Map.empty ''resultado_envio.csv'' = []"
    by (simp add: rows_at_def)
  have f: "rows_at ?fs ''resultado_envio.csv'' = [FIELDNAMES, [''1'', ''5511999990000'', ''FALHA'', ''0'', ''{}'']]"
    by (simp add: rows_at_def)
  have a: "rows_at (append_all ''resultado_envio.csv'' ?ocs Map.empty) ''resultado_envio.csv''
        = [FIELDNAMES] @ map row_of ?ocs
      \<and> count_list (rows_at (append_all ''resultado_envio.csv'' ?ocs Map.empty) ''resultado_envio.csv'') FIELDNAMES = 1"
    using C6_header_once [of "''resultado_envio.csv''" ?ocs Map.empty] e
    by (simp add: row_of_not_header del: append_all.simps)
  have b: "rows_at (append_all ''resultado_envio.csv'' ?oc3 ?fs) ''resultado_envio.csv''
        = [FIELDNAMES, [''1'', ''5511999990000'', ''FALHA'', ''0'', ''{}'']] @ map row_of ?oc3"
    using C6_header_once [of "''resultado_envio.csv''" ?oc3 ?fs] f
    by (simp del: append_all.simps)
  have r: "map row_of ?ocs = [[''1'', ''5511999990000'', ''ENVIADO'', ''200'', ''{\"resp\":null}''],
      [''2'', ''5511888880000'', ''FALHA'', ''0'', ''{\"erro\":\"timeout\"}'']]"
    by (simp add: row_of_def row_eval)
  have r3: "map row_of ?oc3 = [[''3'', ''5511777770000'', ''ENVIADO'', ''200'', ''{\"resp\":null}'']]"
    by (simp add: row_of_def row_eval)
  have h: "FIELDNAMES = [''linha'', ''telefone'', ''status'', ''http'', ''detalhe'']"
    by (simp add: FIELDNAMES_def)
  from a b show ?thesis
    unfolding r r3 by (simp add: h del: append_all.simps)
qed

section \<open>The name of the attachment\<close>

lemma lower_append: "lower (a @ b) = lower a @ lower b"
  by (simp add: lower_def)

lemma lower_jpg: "lower ''.jpg'' = ''.jpg''"
  by (simp add: lower_def lower_char_def)

lemma endswith_append: "endswith (a @ b) b"
  by (simp add: endswith_def)

lemma forced_jpg_ends:
  "endswith (lower (forced_jpg name)) ''.jpg'' \<or> endswith (lower (forced_jpg name)) ''.jpeg''"
proof (cases "endswith (lower name) ''.jpg'' \<or> endswith (lower name) ''.jpeg''")
  case True
  then show ?thesis by (simp add: forced_jpg_def)
next
  case False
  have "endswith (lower (path_stem name @ ''.jpg'')) ''.jpg''"
    unfolding lower_append lower_jpg by (rule endswith_append)
  with False show ?thesis by (simp add: forced_jpg_def)
qed

text \<open>
  C7 as stated fails. For the local image \<open>banner.JPG\<close> and no explicit name the
  attachment is named \<open>banner.JPG\<close>, which ends neither in \<open>.jpg\<close> nor in
  \<open>.jpeg\<close>: the code compares the lower-cased name and keeps the name as it is.
\<close>

theorem C7_counterexample:
  "file_name None ''banner.JPG'' = ''banner.JPG''
   \<and> \<not> endswith (file_name None ''banner.JPG'') ''.jpg''
   \<and> \<not> endswith (file_name None ''banner.JPG'') ''.jpeg''"
proof -
  have "file_name None ''banner.JPG'' = ''banner.JPG''"
    by (simp add: file_name_def chosen_name_def forced_jpg_def path_name_def string_eval)
  then show ?thesis
    by (simp add: endswith_def)
qed

text \<open>
  C7, as the code has it. The name is chosen as the explicit name when one is given and
  is not empty, else as the base name of the source when the source does not begin with
  \<open>http\<close>, else as \<open>image.jpg\<close> for a source that begins with \<open>http://\<close> or
  \<open>https://\<close>. A chosen name that ends in \<open>.jpg\<close> or \<open>.jpeg\<close> in any letter case
  is kept unchanged; any other has its last extension replaced, becoming its stem
  followed by \<open>.jpg\<close>. So the name always ends in \<open>.jpg\<close> or \<open>.jpeg\<close> up to
  letter case, and it is the name every posted request carries.
\<close>

theorem C7_file_name:
  "(filename = Some f \<and> f \<noteq> [] \<longrightarrow> file_name filename img_src = forced_jpg f)
   \<and> ((filename = None \<or> filename = Some []) \<and> \<not> startswith img_src ''http'' \<longrightarrow>
        file_name filename img_src = forced_jpg (path_name img_src))
   \<and> ((filename = None \<or> filename = Some [])
        \<and> (startswith img_src ''http://'' \<or> startswith img_src ''https://'') \<longrightarrow>
        file_name filename img_src = ''image.jpg'')
   \<and> (endswith (lower name) ''.jpg'' \<or> endswith (lower name) ''.jpeg'' \<longrightarrow> forced_jpg name = name)
   \<and> (\<not> endswith (lower name) ''.jpg'' \<and> \<not> endswith (lower name) ''.jpeg'' \<longrightarrow>
        forced_jpg name = path_stem name @ ''.jpg'' \<and> endswith (forced_jpg name) ''.jpg'')
   \<and> (endswith (lower (file_name filename img_src)) ''.jpg''
        \<or> endswith (lower (file_name filename img_src)) ''.jpeg'')
   \<and> (Post rq \<in> set (fst (send_image_with_caption_base64 e api tok num sid txt img_src filename)) \<longrightarrow>
        f_name (p_file (req_json rq)) = file_name filename img_src)"
proof -
  have http: "startswith img_src ''http://'' \<or> startswith img_src ''https://'' \<Longrightarrow> startswith img_src ''http''"
    by (auto simp: startswith_def dest: arg_cong [where f = "take 4"])
  have img: "forced_jpg ''image.jpg'' = ''image.jpg''"
    by (simp add: forced_jpg_def string_eval)
  have 1: "filename = Some f \<and> f \<noteq> [] \<longrightarrow> file_name filename img_src = forced_jpg f"
    by (simp add: file_name_def chosen_name_def)
  have 2: "(filename = None \<or> filename = Some []) \<and> \<not> startswith img_src ''http'' \<longrightarrow>
        file_name filename img_src = forced_jpg (path_name img_src)"
    by (auto simp: file_name_def chosen_name_def)
  have 3: "(filename = None \<or> filename = Some [])
        \<and> (startswith img_src ''http://'' \<or> startswith img_src ''https://'') \<longrightarrow>
        file_name filename img_src = ''image.jpg''"
    using http img by (auto simp: file_name_def chosen_name_def)
  have 4: "endswith (lower name) ''.jpg'' \<or> endswith (lower name) ''.jpeg'' \<longrightarrow> forced_jpg name = name"
    by (simp add: forced_jpg_def)
  have 5: "\<not> endswith (lower name) ''.jpg'' \<and> \<not> endswith (lower name) ''.jpeg'' \<longrightarrow>
        forced_jpg name = path_stem name @ ''.jpg'' \<and> endswith (forced_jpg name) ''.jpg''"
    using endswith_append [of "path_stem name" "''.jpg''"] by (simp add: forced_jpg_def)
  have 6: "endswith (lower (file_name filename img_src)) ''.jpg''
        \<or> endswith (lower (file_name filename img_src)) ''.jpeg''"
    unfolding file_name_def by (rule forced_jpg_ends)
  have 7: "Post rq \<in> set (fst (send_image_with_caption_base64 e api tok num sid txt img_src filename)) \<longrightarrow>
        f_name (p_file (req_json rq)) = file_name filename img_src"
    using send_posts by blast
  from 1 2 3 4 5 6 7 show ?thesis by blast
qed

text \<open>C7 on a local PNG, an explicit upper-case name, a remote source and a double extension.\<close>

theorem C7_file_name_witness:
  "file_name None ''fotos/promo.png'' = ''promo.jpg''
   \<and> file_name (Some ''Cartaz.JPEG'') ''fotos/promo.png'' = ''Cartaz.JPEG''
   \<and> file_name None ''https://cdn.example.com/a/b.png'' = ''image.jpg''
   \<and> file_name None ''arquivo.tar.gz'' = ''arquivo.tar.jpg''
   \<and> endswith (lower (file_name (Some ''Cartaz.JPEG'') ''fotos/promo.png'')) ''.jpeg''"
proof -
  have a: "\<not> startswith ''fotos/promo.png'' ''http''" "\<not> startswith ''arquivo.tar.gz'' ''http''"
    "startswith ''https://cdn.example.com/a/b.png'' ''https://''"
    by (simp_all add: startswith_def)
  have b: "forced_jpg (path_name ''fotos/promo.png'') = ''promo.jpg''"
    "forced_jpg ''Cartaz.JPEG'' = ''Cartaz.JPEG''"
    "forced_jpg (path_name ''arquivo.tar.gz'') = ''arquivo.tar.jpg''"
    by (simp_all add: forced_jpg_def path_stem_def name_stem_def path_name_def string_eval)
  have c: "endswith (lower ''Cartaz.JPEG'') ''.jpeg''"
    by (simp add: string_eval)
  show ?thesis
    using C7_file_name [of None "''x''" "''fotos/promo.png''" "''x''"]
      C7_file_name [of "Some ''Cartaz.JPEG''" "''Cartaz.JPEG''" "''fotos/promo.png''" "''x''"]
      C7_file_name [of None "''x''" "''https://cdn.example.com/a/b.png''" "''x''"]
      C7_file_name [of None "''x''" "''arquivo.tar.gz''" "''x''"]
      a b c
    by simp
qed

section \<open>The detail column\<close>

lemma outcome_row_detail:
  "outcome_row e st i c ! 4
     = (case snd (send_to e st c) of
          Inr resp \<Rightarrow> ''{\"resp\":'' @ json_dumps resp @ ''}''
        | Inl ex \<Rightarrow> ''{\"erro\":'' @ json_quote (exn_str ex) @ ''}'')"
  by (simp add: outcome_row_def record_row_def json_quote_def json_escape_char_def split: sum.splits)

lemma outcome_rows_detail:
  "map (\<lambda>r. r ! 4) (outcome_rows e st i cs)
     = map (\<lambda>c. case snd (send_to e st c) of
                  Inr resp \<Rightarrow> ''{\"resp\":'' @ json_dumps resp @ ''}''
                | Inl ex \<Rightarrow> ''{\"erro\":'' @ json_quote (exn_str ex) @ ''}'') cs"
  by (induction cs arbitrary: i) (simp_all add: outcome_row_detail)

text \<open>
  C8 as stated fails. The gateway answers \<open>{"id":"m1"}\<close>; the detail written is not
  that body itself but \<open>{"resp":{"id":"m1"}}\<close>, the body wrapped under the key
  \<open>resp\<close>.
\<close>

theorem C8_counterexample:
  "snd (send_to (demo_env gateway_ok jpeg3) demo_settings ana) = Inr (JObj [(''id'', JStr ''m1'')])
   \<and> json_dumps (JObj [(''id'', JStr ''m1'')]) = ''{\"id\":\"m1\"}''
   \<and> ledger (main_loop (demo_env gateway_ok jpeg3) demo_settings 1 [ana] world0)
     = [[''linha'', ''telefone'', ''status'', ''http'', ''detalhe''],
        [''1'', ''5511999990000'', ''ENVIADO'', ''200'', ''{\"resp\":{\"id\":\"m1\"}}'']]"
proof -
  have "ledger (main_loop (demo_env gateway_ok jpeg3) demo_settings 1 [ana] world0)
     = [[''linha'', ''telefone'', ''status'', ''http'', ''detalhe''],
        [''1'', ''5511999990000'', ''ENVIADO'', ''200'', ''{\"resp\":{\"id\":\"m1\"}}'']]"
    by (subst main_loop_ledger)
      (simp add: ledger_world0 outcome_row_def demo_send_ok row_eval ana_def)
  then show ?thesis
    by (simp add: demo_send_ok json_quote_def json_escape_char_def)
qed

text \<open>
  C8, as the code has it. For every row the loop appends, the detail field is compact
  JSON of an object with one key: \<open>resp\<close>, holding the parsed response body, after a
  successful send, and \<open>erro\<close>, holding the text of the exception, after a failed one.
\<close>

theorem C8_detail:
  "\<exists>rows. ledger (main_loop e st i cs w)
            = ledger w @ (if ledger w = [] \<and> cs \<noteq> [] then [FIELDNAMES] else []) @ rows
      \<and> map (\<lambda>r. r ! 4) rows
          = map (\<lambda>c. case snd (send_to e st c) of
                       Inr resp \<Rightarrow> json_dumps (JObj [(''resp'', resp)])
                     | Inl ex \<Rightarrow> json_dumps (JObj [(''erro'', JStr (exn_str ex))])) cs
      \<and> map (\<lambda>r. r ! 4) rows
          = map (\<lambda>c. case snd (send_to e st c) of
                       Inr resp \<Rightarrow> ''{\"resp\":'' @ json_dumps resp @ ''}''
                     | Inl ex \<Rightarrow> ''{\"erro\":'' @ json_quote (exn_str ex) @ ''}'') cs"
proof (intro exI conjI)
  show "ledger (main_loop e st i cs w)
      = ledger w @ (if ledger w = [] \<and> cs \<noteq> [] then [FIELDNAMES] else []) @ outcome_rows e st i cs"
    by (rule main_loop_ledger)
  show "map (\<lambda>r. r ! 4) (outcome_rows e st i cs)
          = map (\<lambda>c. case snd (send_to e st c) of
                       Inr resp \<Rightarrow> ''{\"resp\":'' @ json_dumps resp @ ''}''
                     | Inl ex \<Rightarrow> ''{\"erro\":'' @ json_quote (exn_str ex) @ ''}'') cs"
    by (rule outcome_rows_detail)
  have "\<And>c. (case snd (send_to e st c) of
                       Inr resp \<Rightarrow> json_dumps (JObj [(''resp'', resp)])
                     | Inl ex \<Rightarrow> json_dumps (JObj [(''erro'', JStr (exn_str ex))]))
            = (case snd (send_to e st c) of
                       Inr resp \<Rightarrow> ''{\"resp\":'' @ json_dumps resp @ ''}''
                     | Inl ex \<Rightarrow> ''{\"erro\":'' @ json_quote (exn_str ex) @ ''}'')"
    by (simp add: json_quote_def json_escape_char_def split: sum.splits)
  then show "map (\<lambda>r. r ! 4) (outcome_rows e st i cs)
          = map (\<lambda>c. case snd (send_to e st c) of
                       Inr resp \<Rightarrow> json_dumps (JObj [(''resp'', resp)])
                     | Inl ex \<Rightarrow> json_dumps (JObj [(''erro'', JStr (exn_str ex))])) cs"
    by (simp add: outcome_rows_detail)
qed

text \<open>C8 on a run with one contact and the gateway that answers 422.\<close>

theorem C8_detail_witness:
  "\<exists>rows. ledger (main_loop (demo_env gateway_422 jpeg3) demo_settings 1 [ana] world0)
            = FIELDNAMES # rows
      \<and> map (\<lambda>r. r ! 4) rows
          = [json_dumps (JObj [(''erro'', JStr (exn_str (Exn HTTPError
              ''422 Client Error: Unprocessable Entity for url: https://demo.digisac.chat/api/v1/messages | body={\"error\":\"invalid number\"}''
              None)))])]"
proof -
  let ?e = "demo_env gateway_422 jpeg3"
  let ?d = "\<lambda>c. case snd (send_to ?e demo_settings c) of
                       Inr resp \<Rightarrow> json_dumps (JObj [(''resp'', resp)])
                     | Inl ex \<Rightarrow> json_dumps (JObj [(''erro'', JStr (exn_str ex))])"
  have d: "?d ana = json_dumps (JObj [(''erro'', JStr (exn_str (Exn HTTPError
              ''422 Client Error: Unprocessable Entity for url: https://demo.digisac.chat/api/v1/messages | body={\"error\":\"invalid number\"}''
              None)))])"
    by (simp only: demo_send_422 snd_conv sum.case)
  from C8_detail [of ?e demo_settings 1 "[ana]" world0] show ?thesis
  proof (elim exE conjE)
    fix rows
    assume 1: "ledger (main_loop ?e demo_settings 1 [ana] world0)
          = ledger world0 @ (if ledger world0 = [] \<and> [ana] \<noteq> [] then [FIELDNAMES] else []) @ rows"
      and 2: "map (\<lambda>r. r ! 4) rows = map ?d [ana]"
    have h1: "ledger (main_loop ?e demo_settings 1 [ana] world0) = FIELDNAMES # rows"
      unfolding 1 by (simp add: ledger_world0)
    have h2: "map (\<lambda>r. r ! 4) rows = [?d ana]"
      unfolding 2 by simp
    show ?thesis
    proof (intro exI conjI)
      show "ledger (main_loop ?e demo_settings 1 [ana] world0) = FIELDNAMES # rows"
        by (fact h1)
      show "map (\<lambda>r. r ! 4) rows = [json_dumps (JObj [(''erro'', JStr (exn_str (Exn HTTPError
              ''422 Client Error: Unprocessable Entity for url: https://demo.digisac.chat/api/v1/messages | body={\"error\":\"invalid number\"}''
              None)))])]"
        unfolding h2 d by (rule refl)
    qed
  qed
qed

section \<open>The text of the message\<close>

lemma rstrip_prefix: "\<exists>zs. s = rstrip p s @ zs"
proof -
  have "rstrip p s @ rev (takeWhile p (rev s)) = rev (takeWhile p (rev s) @ dropWhile p (rev s))"
    by (simp only: rstrip_def rev_append)
  also have "\<dots> = s"
    by (simp only: takeWhile_dropWhile_id rev_rev_ident)
  finally have "s = rstrip p s @ rev (takeWhile p (rev s))"
    by (rule sym)
  then show ?thesis ..
qed

lemma lstrip_rstrip_lstrip: "lstrip p (rstrip p (lstrip p s)) = rstrip p (lstrip p s)"
proof (cases "rstrip p (lstrip p s) = []")
  case True
  then show ?thesis by (simp add: lstrip_def)
next
  case False
  obtain zs where z: "lstrip p s = rstrip p (lstrip p s) @ zs"
    using rstrip_prefix by blast
  have ne: "lstrip p s \<noteq> []"
    using False z by auto
  have "hd (rstrip p (lstrip p s)) = hd (lstrip p s)"
    using False z by (metis hd_append2)
  moreover have "\<not> p (hd (lstrip p s))"
    using ne unfolding lstrip_def by (rule hd_dropWhile)
  ultimately have "\<not> p (hd (rstrip p (lstrip p s)))"
    by simp
  then show ?thesis
    unfolding lstrip_def [of p "rstrip p (lstrip p s)"] by (simp add: dropWhile_eq_self_iff)
qed

lemma rstrip_idem: "rstrip p (rstrip p s) = rstrip p s"
  by (simp add: rstrip_def)

lemma strip_idem: "strip (strip s) = strip s"
  by (simp add: strip_def lstrip_rstrip_lstrip rstrip_idem)

lemma strip_Nil: "strip [] = []"
  by (simp add: strip_def lstrip_def rstrip_def)

lemma send_to_posts:
  "Post rq \<in> set (fst (send_to e st c)) \<Longrightarrow> p_text (req_json rq) = strip (TEXT st)"
  unfolding send_to_def by (drule send_posts) simp

text \<open>
  C10. Every request a run posts carries as its text the configured message
  (\<open>MESSAGE_TEMPLATE\<close>, else \<open>MESSAGE_TEXT\<close>, else the empty string) with the
  whitespace at both ends stripped, whatever the contact; it is the empty string when no
  message is configured. The program strips the message twice, which is the same as
  stripping it once.
\<close>

theorem C10_message_text:
  assumes "events (main_loop e (settings_of ev) i cs w) = events w @ evs"
    and "Post rq \<in> set evs"
  shows "p_text (req_json rq) = strip (or_else (MESSAGE_TEMPLATE ev) (or_else (MESSAGE_TEXT ev) []))
    \<and> (MESSAGE_TEMPLATE ev = None \<and> MESSAGE_TEXT ev = None \<longrightarrow> p_text (req_json rq) = [])"
proof -
  have "evs = concat (map (\<lambda>c. fst (send_to e (settings_of ev) c)) cs)"
    using assms(1) by (simp add: main_loop_events)
  with assms(2) obtain c where "Post rq \<in> set (fst (send_to e (settings_of ev) c))"
    by auto
  then have "p_text (req_json rq) = strip (TEXT (settings_of ev))"
    by (rule send_to_posts)
  then have 1: "p_text (req_json rq) = strip (or_else (MESSAGE_TEMPLATE ev) (or_else (MESSAGE_TEXT ev) []))"
    by (simp add: settings_of_def strip_idem)
  then have "MESSAGE_TEMPLATE ev = None \<and> MESSAGE_TEXT ev = None \<longrightarrow> p_text (req_json rq) = []"
    by (simp add: or_else_def strip_Nil)
  with 1 show ?thesis ..
qed

lemma demo_settings_of: "settings_of demo_environ = demo_settings"
  by (simp add: settings_of_def demo_environ_def demo_settings_def or_else_def
      strip_def lstrip_def rstrip_def isspace_def)

text \<open>C10 on a run over two contacts with the template \<open>" Oi! "\<close>.\<close>

theorem C10_message_text_witness:
  "strip (or_else (MESSAGE_TEMPLATE demo_environ) (or_else (MESSAGE_TEXT demo_environ) [])) = ''Oi!''
   \<and> (\<exists>rq. Post rq \<in> set (events (main_loop (demo_env gateway_ok jpeg3) (settings_of demo_environ)
                                    1 [ana, bea] world0))
           \<and> p_number (req_json rq) = ''5511888880000''
           \<and> p_text (req_json rq) = ''Oi!'')"
proof -
  let ?e = "demo_env gateway_ok jpeg3"
  let ?rq = "\<lambda>c. \<lparr>req_url = ''https://demo.digisac.chat/api/v1/messages'',
               req_authorization = ''Bearer token-1234'',
               req_content_type = ''application/json'',
               req_json = \<lparr>p_text = ''Oi!'', p_number = telefone c, p_serviceId = ''svc-1'',
                            p_file = \<lparr>f_base64 = ''/9j/'', f_mimetype = ''image/jpeg'',
                                       f_name = ''banner.jpg''\<rparr>\<rparr>\<rparr>"
  let ?evs = "[ReadImage ''banner.jpg'', Normalize, Encode, Post (?rq ana),
               ReadImage ''banner.jpg'', Normalize, Encode, Post (?rq bea)]"
  have t: "strip (or_else (MESSAGE_TEMPLATE demo_environ) (or_else (MESSAGE_TEXT demo_environ) [])) = ''Oi!''"
    by (simp add: demo_environ_def or_else_def strip_def lstrip_def rstrip_def isspace_def)
  have ev: "events (main_loop ?e (settings_of demo_environ) 1 [ana, bea] world0) = events world0 @ ?evs"
    unfolding demo_settings_of by (subst main_loop_events) (simp add: demo_send_ok)
  have mem: "Post (?rq bea) \<in> set ?evs"
    by simp
  have ptext: "p_text (req_json (?rq bea)) = ''Oi!''"
    using C10_message_text [OF ev mem] by (simp only: t)
  have mem': "Post (?rq bea) \<in> set (events (main_loop ?e (settings_of demo_environ) 1 [ana, bea] world0))"
    unfolding ev by simp
  have num: "p_number (req_json (?rq bea)) = ''5511888880000''"
    by (simp add: bea_def)
  show ?thesis
  proof (intro conjI exI)
    show "strip (or_else (MESSAGE_TEMPLATE demo_environ) (or_else (MESSAGE_TEXT demo_environ) [])) = ''Oi!''"
      by (fact t)
    show "Post (?rq bea) \<in> set (events (main_loop ?e (settings_of demo_environ) 1 [ana, bea] world0))"
      by (fact mem')
    show "p_number (req_json (?rq bea)) = ''5511888880000''"
      by (fact num)
    show "p_text (req_json (?rq bea)) = ''Oi!''"
      by (fact ptext)
  qed
qed

end
